theory Spec2Isabelle
  imports Complex_Main "HOL-Library.AList" "HOL-Library.Multiset"
begin

section \<open>Data model of uthopiassh.py\<close>

text \<open>
  Python \<open>str\<close> and \<open>bytes\<close> values are both modelled as \<open>string\<close>; Python \<open>int\<close> is
  \<open>int\<close>; \<open>Optional[t]\<close> is \<open>t option\<close>.  An exception object (any subclass of
  \<open>Exception\<close>) carries the text that \<open>str(e)\<close> yields.
\<close>

datatype exn = Exception (str: string)

text \<open>The dataclass \<open>SSHHost\<close>; \<open>__post_init__\<close> replaces \<open>tags = None\<close> by the empty list.\<close>

record SSHHost =
  hostname :: string
  username :: string
  password :: "string option"
  key_filename :: "string option"
  port :: int
  timeout :: int
  tags :: "string list"

text \<open>The dataclass \<open>TaskResult\<close>.  The float \<open>execution_time\<close> is abstracted by a real.\<close>

record TaskResult =
  host :: string
  command :: string
  stdout :: string
  stderr :: string
  exit_code :: int
  execution_time :: real
  success :: bool
  error :: "string option"

text \<open>
  Every \<open>paramiko.SSHClient()\<close> evaluation yields a new object; a client is identified by
  the number of client objects allocated before it.
\<close>

type_synonym client = nat

text \<open>The keyword arguments of one \<open>SSHClient.connect\<close> call; an omitted keyword is \<open>None\<close>.\<close>

record connect_args =
  ca_hostname :: string
  ca_port :: int
  ca_username :: string
  ca_password :: "string option"
  ca_key_filename :: "string option"
  ca_timeout :: "int option"

text \<open>
  The external collaborators (paramiko, \<open>bytes.decode\<close>, \<open>time.time\<close>) are a parameter of
  the model: a record of operations on an arbitrary world \<open>'w\<close> (network and remote hosts).
  A call that may raise returns the exception as a value.  \<open>lib_is_active c w\<close> stands for
  \<open>c.get_transport() and c.get_transport().is_active()\<close>.
\<close>

record ('w, 'c) paramiko =
  lib_connect :: "client \<Rightarrow> connect_args \<Rightarrow> 'w \<Rightarrow> exn option \<times> 'w"
  lib_is_active :: "client \<Rightarrow> 'w \<Rightarrow> bool"
  lib_exec_command :: "client \<Rightarrow> string \<Rightarrow> 'w \<Rightarrow> (exn + 'c) \<times> 'w"
  lib_read_stdout :: "'c \<Rightarrow> 'w \<Rightarrow> (exn + string) \<times> 'w"
  lib_read_stderr :: "'c \<Rightarrow> 'w \<Rightarrow> (exn + string) \<times> 'w"
  lib_recv_exit_status :: "'c \<Rightarrow> 'w \<Rightarrow> (exn + int) \<times> 'w"
  lib_close :: "client \<Rightarrow> 'w \<Rightarrow> exn option \<times> 'w"
  lib_decode :: "string \<Rightarrow> exn + string"
  lib_time :: "'w \<Rightarrow> real"

text \<open>The records written through \<open>logger\<close>, kept structured instead of formatted.\<close>

datatype level = INFO | ERROR

datatype message =
    Error_conectando string exn
  | Comando_ejecutado string string
  | Error_ejecutando_comando string exn
  | Error_procesando_resultado string exn
  | Tunel_SSH_activo int string int
  | Error_en_tunel_SSH exn

text \<open>The part of the process state that the pool and the dispatcher share.\<close>

record 'w sys =
  world :: 'w
  next_client :: nat
  logged :: "(level \<times> message) list"

section \<open>SSHConnectionPool\<close>

text \<open>
  \<open>connections\<close> is a Python dict: an association list in insertion order with distinct
  keys.  The lock serialises \<open>get_connection\<close>; the model runs each call atomically.
\<close>

record SSHConnectionPool =
  max_connections :: int
  connections :: "(string \<times> client) list"

definition SSHConnectionPool_init :: "int \<Rightarrow> SSHConnectionPool" where
  "SSHConnectionPool_init n = \<lparr>max_connections = n, connections = []\<rparr>"

text \<open>Decimal text of an integer, as an f-string prints it.\<close>

fun str_nat :: "nat \<Rightarrow> string" where
  "str_nat n =
     (if n < 10 then [''0123456789'' ! n]
      else str_nat (n div 10) @ [''0123456789'' ! (n mod 10)])"

definition str_int :: "int \<Rightarrow> string" where
  "str_int i = (if i < 0 then ''-'' @ str_nat (nat (- i)) else str_nat (nat i))"

definition host_key :: "SSHHost \<Rightarrow> string" where
  "host_key h = username h @ ''@'' @ hostname h @ '':'' @ str_int (port h)"

text \<open>Truth value of an \<open>Optional[str]\<close>: \<open>None\<close> and the empty string are false.\<close>

definition truthy :: "string option \<Rightarrow> bool" where
  "truthy v = (case v of None \<Rightarrow> False | Some t \<Rightarrow> t \<noteq> [])"

text \<open>The arguments \<open>get_connection\<close> passes to \<open>ssh.connect\<close> (lines 102-117).\<close>

definition pool_connect_args :: "SSHHost \<Rightarrow> connect_args" where
  "pool_connect_args h =
     (if truthy (key_filename h)
      then \<lparr>ca_hostname = hostname h, ca_port = port h, ca_username = username h,
            ca_password = None, ca_key_filename = key_filename h,
            ca_timeout = Some (timeout h)\<rparr>
      else \<lparr>ca_hostname = hostname h, ca_port = port h, ca_username = username h,
            ca_password = password h, ca_key_filename = None,
            ca_timeout = Some (timeout h)\<rparr>)"

text \<open>
  Lines 97-124: allocate a client, connect it, insert it on success; on failure log and
  re-raise, the pool being left as it is at that point.
\<close>

definition new_connection ::
  "('w, 'c) paramiko \<Rightarrow> SSHHost \<Rightarrow> SSHConnectionPool \<Rightarrow> 'w sys \<Rightarrow>
     (exn + client) \<times> SSHConnectionPool \<times> 'w sys" where
  "new_connection T h pool s =
     (let ssh = next_client s;
          s1 = s\<lparr>next_client := Suc ssh\<rparr>
      in case lib_connect T ssh (pool_connect_args h) (world s1) of
           (None, w) \<Rightarrow>
             (Inr ssh,
              pool\<lparr>connections := AList.update (host_key h) ssh (connections pool)\<rparr>,
              s1\<lparr>world := w\<rparr>)
         | (Some e, w) \<Rightarrow>
             (Inl e, pool,
              s1\<lparr>world := w,
                 logged := logged s1 @ [(ERROR, Error_conectando (host_key h) e)]\<rparr>))"

text \<open>Lines 84-96: reuse a pooled client whose transport is active, drop a dead one.\<close>

definition get_connection ::
  "('w, 'c) paramiko \<Rightarrow> SSHHost \<Rightarrow> SSHConnectionPool \<Rightarrow> 'w sys \<Rightarrow>
     (exn + client) \<times> SSHConnectionPool \<times> 'w sys" where
  "get_connection T h pool s =
     (case map_of (connections pool) (host_key h) of
        Some conn \<Rightarrow>
          if lib_is_active T conn (world s) then (Inr conn, pool, s)
          else new_connection T h
                 (pool\<lparr>connections := AList.delete (host_key h) (connections pool)\<rparr>) s
      | None \<Rightarrow> new_connection T h pool s)"

text \<open>\<open>close_all\<close>: close every pooled client, ignoring errors, then clear the dict.\<close>

definition close_all ::
  "('w, 'c) paramiko \<Rightarrow> SSHConnectionPool \<Rightarrow> 'w sys \<Rightarrow> SSHConnectionPool \<times> 'w sys" where
  "close_all T pool s =
     (pool\<lparr>connections := []\<rparr>,
      s\<lparr>world := fold (\<lambda>conn w. snd (lib_close T conn w)) (map snd (connections pool))
                    (world s)\<rparr>)"

text \<open>
  The invariant of a pool in a process state: the dict has distinct keys, no client is
  stored under two keys, and every stored client has already been allocated.
\<close>

definition pool_inv :: "SSHConnectionPool \<Rightarrow> 'w sys \<Rightarrow> bool" where
  "pool_inv pool s =
     (distinct (map fst (connections pool)) \<and> distinct (map snd (connections pool)) \<and>
      list_all (\<lambda>c. c < next_client s) (map snd (connections pool)))"

definition sys_init :: "'w \<Rightarrow> 'w sys" where
  "sys_init w = \<lparr>world = w, next_client = 0, logged = []\<rparr>"

section \<open>A simulated transport\<close>

text \<open>
  A small instance of the transport record, used to run the model on concrete inputs.  Hosts
  listed in \<open>down\<close> refuse connections; the world lists the clients whose transport has
  died and the clients that were closed.  The remote shell answers \<open>exit 7\<close> with status 7.
\<close>

record net =
  dead :: "client list"
  closed :: "client list"

definition sim :: "string list \<Rightarrow> (net, string) paramiko" where
  "sim down =
     \<lparr>lib_connect = (\<lambda>c a w.
        if ca_hostname a \<in> set down then (Some (Exception ''timed out''), w) else (None, w)),
      lib_is_active = (\<lambda>c w. c \<notin> set (dead w) \<and> c \<notin> set (closed w)),
      lib_exec_command = (\<lambda>c cmd w.
        if c \<in> set (dead w) \<or> c \<in> set (closed w)
        then (Inl (Exception ''SSH session not active''), w) else (Inr cmd, w)),
      lib_read_stdout = (\<lambda>ch w. (Inr [], w)),
      lib_read_stderr = (\<lambda>ch w. (Inr [], w)),
      lib_recv_exit_status = (\<lambda>ch w. (Inr (if ch = ''exit 7'' then 7 else 0), w)),
      lib_close = (\<lambda>c w. (None, w\<lparr>closed := c # closed w\<rparr>)),
      lib_decode = (\<lambda>b. if list_all (\<lambda>c. (of_char c :: nat) < 128) b then Inr b
                         else Inl (Exception ''invalid start byte'')),
      lib_time = (\<lambda>w. 0)\<rparr>"

text \<open>The two hosts of \<open>main\<close>.\<close>

definition server1 :: SSHHost where
  "server1 = \<lparr>hostname = ''192.168.1.100'', username = ''admin'',
     password = Some ''password123'', key_filename = None, port = 22, timeout = 30,
     tags = []\<rparr>"

definition server2 :: SSHHost where
  "server2 = \<lparr>hostname = ''192.168.1.101'', username = ''admin'',
     password = None, key_filename = Some ''/path/to/key.pem'', port = 22, timeout = 30,
     tags = []\<rparr>"

definition net_up :: net where
  "net_up = \<lparr>dead = [], closed = []\<rparr>"

text \<open>The pool and the process state after \<open>server1\<close> was acquired from an empty pool.\<close>

definition pool_demo :: SSHConnectionPool where
  "pool_demo = \<lparr>max_connections = 5, connections = [(''admin@192.168.1.100:22'', 0)]\<rparr>"

definition sys_demo :: "net sys" where
  "sys_demo = \<lparr>world = net_up, next_client = 1, logged = []\<rparr>"

definition pool_demo2 :: SSHConnectionPool where
  "pool_demo2 = \<lparr>max_connections = 5,
     connections = [(''admin@192.168.1.100:22'', 0), (''admin@192.168.1.101:22'', 1)]\<rparr>"

text \<open>A pool whose only session, for \<open>server1\<close>, has a dead transport.\<close>

definition pool_stale :: SSHConnectionPool where
  "pool_stale = \<lparr>max_connections = 5, connections = [(''admin@192.168.1.100:22'', 0)]\<rparr>"

definition sys_stale :: "net sys" where
  "sys_stale = \<lparr>world = \<lparr>dead = [0], closed = []\<rparr>, next_client = 1, logged = []\<rparr>"

text \<open>A sequence of acquisitions, one host after the other, results discarded.\<close>

fun acquire_all ::
  "('w, 'c) paramiko \<Rightarrow> SSHHost list \<Rightarrow> SSHConnectionPool \<Rightarrow> 'w sys \<Rightarrow>
     SSHConnectionPool \<times> 'w sys" where
  "acquire_all T [] pool s = (pool, s)"
| "acquire_all T (h # hs) pool s =
     (case get_connection T h pool s of (r, pool', s') \<Rightarrow> acquire_all T hs pool' s')"

section \<open>AdvancedSSHAutomation\<close>

text \<open>
  \<open>hosts\<close> is the inventory dict, \<open>results\<close> the list of all results so far.  The console
  and the progress display are outside the model.
\<close>

record AdvancedSSHAutomation =
  max_concurrent :: int
  connection_pool :: SSHConnectionPool
  hosts :: "string \<rightharpoonup> SSHHost"
  results :: "TaskResult list"

definition AdvancedSSHAutomation_init :: "int \<Rightarrow> AdvancedSSHAutomation" where
  "AdvancedSSHAutomation_init n =
     \<lparr>max_concurrent = n, connection_pool = SSHConnectionPool_init n,
      hosts = Map.empty, results = []\<rparr>"

definition add_host ::
  "string \<Rightarrow> SSHHost \<Rightarrow> AdvancedSSHAutomation \<Rightarrow> AdvancedSSHAutomation" where
  "add_host name h self = self\<lparr>hosts := (hosts self)(name \<mapsto> h)\<rparr>"

text \<open>\<open>f.read().decode('utf-8')\<close>: either step may raise.\<close>

definition read_decoded ::
  "('w, 'c) paramiko \<Rightarrow> ('c \<Rightarrow> 'w \<Rightarrow> (exn + string) \<times> 'w) \<Rightarrow> 'c \<Rightarrow> 'w \<Rightarrow>
     (exn + string) \<times> 'w" where
  "read_decoded T rd ch w =
     (case rd ch w of
        (Inl e, w') \<Rightarrow> (Inl e, w')
      | (Inr data, w') \<Rightarrow> (lib_decode T data, w'))"

text \<open>
  The \<open>try\<close> body of \<open>execute_command\<close> up to the exit status (lines 235-240): the first
  call that raises ends it with that exception.
\<close>

definition run_command ::
  "('w, 'c) paramiko \<Rightarrow> SSHConnectionPool \<Rightarrow> SSHHost \<Rightarrow> string \<Rightarrow> 'w sys \<Rightarrow>
     (exn + string \<times> string \<times> int) \<times> SSHConnectionPool \<times> 'w sys" where
  "run_command T pool h cmd s =
     (case get_connection T h pool s of
        (Inl e, pool1, s1) \<Rightarrow> (Inl e, pool1, s1)
      | (Inr ssh, pool1, s1) \<Rightarrow>
          (case lib_exec_command T ssh cmd (world s1) of
             (Inl e, w2) \<Rightarrow> (Inl e, pool1, s1\<lparr>world := w2\<rparr>)
           | (Inr ch, w2) \<Rightarrow>
               (case read_decoded T (lib_read_stdout T) ch w2 of
                  (Inl e, w3) \<Rightarrow> (Inl e, pool1, s1\<lparr>world := w3\<rparr>)
                | (Inr stdout_data, w3) \<Rightarrow>
                    (case read_decoded T (lib_read_stderr T) ch w3 of
                       (Inl e, w4) \<Rightarrow> (Inl e, pool1, s1\<lparr>world := w4\<rparr>)
                     | (Inr stderr_data, w4) \<Rightarrow>
                         (case lib_recv_exit_status T ch w4 of
                            (Inl e, w5) \<Rightarrow> (Inl e, pool1, s1\<lparr>world := w5\<rparr>)
                          | (Inr code, w5) \<Rightarrow>
                              (Inr (stdout_data, stderr_data, code), pool1,
                               s1\<lparr>world := w5\<rparr>))))))"

text \<open>\<open>execute_command\<close> (lines 230-270): it returns a \<open>TaskResult\<close> on both paths.\<close>

definition execute_command ::
  "('w, 'c) paramiko \<Rightarrow> AdvancedSSHAutomation \<Rightarrow> SSHHost \<Rightarrow> string \<Rightarrow> 'w sys \<Rightarrow>
     TaskResult \<times> AdvancedSSHAutomation \<times> 'w sys" where
  "execute_command T self h cmd s =
     (let start_time = lib_time T (world s)
      in case run_command T (connection_pool self) h cmd s of
           (Inr (stdout_data, stderr_data, code), pool1, s1) \<Rightarrow>
             (\<lparr>host = hostname h, command = cmd, stdout = stdout_data,
               stderr = stderr_data, exit_code = code,
               execution_time = lib_time T (world s1) - start_time,
               success = (code = 0), error = None\<rparr>,
              self\<lparr>connection_pool := pool1\<rparr>,
              s1\<lparr>logged := logged s1 @ [(INFO, Comando_ejecutado (hostname h) cmd)]\<rparr>)
         | (Inl e, pool1, s1) \<Rightarrow>
             (\<lparr>host = hostname h, command = cmd, stdout = [], stderr = [],
               exit_code = - 1,
               execution_time = lib_time T (world s1) - start_time,
               success = False, error = Some (str e)\<rparr>,
              self\<lparr>connection_pool := pool1\<rparr>,
              s1\<lparr>logged := logged s1 @
                          [(ERROR, Error_ejecutando_comando (hostname h) e)]\<rparr>))"

section \<open>The parallel dispatcher\<close>

text \<open>
  The futures submitted by the dict comprehension of \<open>execute_parallel\<close>: one per
  occurrence of a label that is a key of the inventory, in list order, each with the label
  it is mapped to and the host it runs on.
\<close>

definition submitted :: "AdvancedSSHAutomation \<Rightarrow> string list \<Rightarrow> (string \<times> SSHHost) list" where
  "submitted self labels =
     concat (map (\<lambda>l. case hosts self l of None \<Rightarrow> [] | Some h \<Rightarrow> [(l, h)]) labels)"

text \<open>
  The order in which \<open>as_completed\<close> yields the futures is chosen by the scheduler \<open>sch\<close>:
  with \<open>n + 1\<close> futures pending, the one at position \<open>sch n mod (n + 1)\<close> completes next.
\<close>

function completion_order :: "(nat \<Rightarrow> nat) \<Rightarrow> 'a list \<Rightarrow> 'a list" where
  "completion_order sch [] = []"
| "completion_order sch (x # xs) =
     (let i = sch (length xs) mod Suc (length xs)
      in (x # xs) ! i # completion_order sch (take i (x # xs) @ drop (Suc i) (x # xs)))"
  by pat_completeness auto

termination
  by (relation "measure (\<lambda>(sch, xs). length xs)") auto

text \<open>
  The loop over \<open>as_completed\<close> (lines 294-306).  The worker threads share the pool and
  the world.  In the code only \<open>get_connection\<close> is serialised by the lock and the other
  calls of different workers interleave; the model runs the tasks one after the other in
  completion order, each \<open>execute_command\<close> as a whole, followed by the main thread's
  handling of its result, so that here the order of the acquisitions is the order of the
  completions.  A callback that raises is logged after the result has been appended.
\<close>

fun collect ::
  "('w, 'c) paramiko \<Rightarrow> string \<Rightarrow> (TaskResult \<Rightarrow> 'w \<Rightarrow> exn option \<times> 'w) option \<Rightarrow>
     (string \<times> SSHHost) list \<Rightarrow> TaskResult list \<Rightarrow> AdvancedSSHAutomation \<Rightarrow> 'w sys \<Rightarrow>
     TaskResult list \<times> AdvancedSSHAutomation \<times> 'w sys" where
  "collect T cmd progress_callback [] rs self s = (rs, self, s)"
| "collect T cmd progress_callback ((label, h) # rest) rs self s =
     (case execute_command T self h cmd s of
        (result, self1, s1) \<Rightarrow>
          collect T cmd progress_callback rest (rs @ [result]) self1
            (case progress_callback of
               None \<Rightarrow> s1
             | Some f \<Rightarrow>
                 (case f result (world s1) of
                    (None, w) \<Rightarrow> s1\<lparr>world := w\<rparr>
                  | (Some e, w) \<Rightarrow>
                      s1\<lparr>world := w,
                         logged := logged s1 @
                           [(ERROR, Error_procesando_resultado label e)]\<rparr>)))"

text \<open>
  \<open>execute_parallel\<close> (lines 272-309).  \<open>ThreadPoolExecutor\<close> raises \<open>ValueError\<close> for
  \<open>max_workers <= 0\<close>, before anything is submitted.
\<close>

definition execute_parallel ::
  "('w, 'c) paramiko \<Rightarrow> (nat \<Rightarrow> nat) \<Rightarrow> AdvancedSSHAutomation \<Rightarrow> string list \<Rightarrow> string \<Rightarrow>
     (TaskResult \<Rightarrow> 'w \<Rightarrow> exn option \<times> 'w) option \<Rightarrow> 'w sys \<Rightarrow>
     (exn + TaskResult list) \<times> AdvancedSSHAutomation \<times> 'w sys" where
  "execute_parallel T sch self labels cmd progress_callback s =
     (if max_concurrent self \<le> 0
      then (Inl (Exception ''max_workers must be greater than 0''), self, s)
      else case collect T cmd progress_callback
                  (completion_order sch (submitted self labels)) [] self s of
             (rs, self1, s1) \<Rightarrow> (Inr rs, self1\<lparr>results := results self1 @ rs\<rparr>, s1))"

text \<open>The framework of \<open>main\<close>, with its two hosts.\<close>

definition main_automation :: AdvancedSSHAutomation where
  "main_automation =
     add_host ''server2'' server2
       (add_host ''server1'' server1 (AdvancedSSHAutomation_init 5))"



section \<open>SSHTunnel\<close>

text \<open>The arguments \<open>tunnel_worker\<close> passes to \<open>ssh.connect\<close> (lines 152-158).\<close>

definition tunnel_connect_args :: "SSHHost \<Rightarrow> connect_args" where
  "tunnel_connect_args h =
     \<lparr>ca_hostname = hostname h, ca_port = port h, ca_username = username h,
      ca_password = password h, ca_key_filename = key_filename h, ca_timeout = None\<rparr>"

text \<open>
  What the environment presents to one worker: the outcome of its connect, the outcome of
  creating, binding and listening on the local socket, and the local connections that
  arrive, each with the answer \<open>open_channel\<close> will give for it (or an \<open>accept\<close> that
  raises).  Sockets and channels are identified by numbers, a peer address is a pair.
\<close>

datatype incoming =
    Incoming nat "string \<times> int" "exn + nat"
  | Accept_raises exn

record tunnel_env =
  connect_result :: "exn option"
  listen_result :: "exn option"
  arrivals :: "incoming list"

text \<open>Every call the worker thread makes, in order.\<close>

datatype tunnel_event =
    Ssh_connect connect_args
  | Socket_listen int
  | Logged level message
  | Socket_accept nat "string \<times> int"
  | Open_channel "string \<times> int" "string \<times> int"
  | Relay_started nat nat
  | Ssh_close

text \<open>
  The \<open>while True\<close> loop (lines 167-178) over the arrivals: the events it produces and
  the exception that leaves it.  When the arrivals are used up the loop is blocked in
  \<open>accept\<close> and no exception has left it.
\<close>

fun accept_loop ::
  "string \<Rightarrow> int \<Rightarrow> incoming list \<Rightarrow> tunnel_event list \<times> exn option" where
  "accept_loop remote_host remote_port [] = ([], None)"
| "accept_loop remote_host remote_port (Accept_raises e # rest) = ([], Some e)"
| "accept_loop remote_host remote_port (Incoming client_socket addr (Inl e) # rest) =
     ([Socket_accept client_socket addr, Open_channel (remote_host, remote_port) addr],
      Some e)"
| "accept_loop remote_host remote_port (Incoming client_socket addr (Inr channel) # rest) =
     (case accept_loop remote_host remote_port rest of
        (evs, r) \<Rightarrow>
          (Socket_accept client_socket addr # Open_channel (remote_host, remote_port) addr #
           Relay_started client_socket channel # evs, r))"

datatype worker_status = Accepting | Finished

text \<open>
  \<open>tunnel_worker\<close> (lines 147-183): one \<open>try\<close> around connect, listen and the loop;
  \<open>except\<close> logs, \<open>finally\<close> closes the client.
\<close>

definition tunnel_worker ::
  "tunnel_env \<Rightarrow> SSHHost \<Rightarrow> int \<Rightarrow> string \<Rightarrow> int \<Rightarrow> tunnel_event list \<times> worker_status" where
  "tunnel_worker env h local_port remote_host remote_port =
     (case connect_result env of
        Some e \<Rightarrow>
          ([Ssh_connect (tunnel_connect_args h), Logged ERROR (Error_en_tunel_SSH e),
            Ssh_close], Finished)
      | None \<Rightarrow>
          (case listen_result env of
             Some e \<Rightarrow>
               ([Ssh_connect (tunnel_connect_args h), Socket_listen local_port,
                 Logged ERROR (Error_en_tunel_SSH e), Ssh_close], Finished)
           | None \<Rightarrow>
               (case accept_loop remote_host remote_port (arrivals env) of
                  (evs, None) \<Rightarrow>
                    (Ssh_connect (tunnel_connect_args h) # Socket_listen local_port #
                     Logged INFO (Tunel_SSH_activo local_port remote_host remote_port) # evs,
                     Accepting)
                | (evs, Some e) \<Rightarrow>
                    (Ssh_connect (tunnel_connect_args h) # Socket_listen local_port #
                     Logged INFO (Tunel_SSH_activo local_port remote_host remote_port) #
                     evs @ [Logged ERROR (Error_en_tunel_SSH e), Ssh_close],
                     Finished))))"

text \<open>
  \<open>create_tunnel\<close>: the thread stored under the tunnel key is represented by the run of
  its worker.
\<close>

record SSHTunnel =
  tunnel_host :: SSHHost
  tunnels :: "(string \<times> tunnel_event list \<times> worker_status) list"

definition create_tunnel ::
  "tunnel_env \<Rightarrow> SSHTunnel \<Rightarrow> int \<Rightarrow> string \<Rightarrow> int \<Rightarrow> SSHTunnel" where
  "create_tunnel env self local_port remote_host remote_port =
     self\<lparr>tunnels :=
       AList.update (str_int local_port @ '':'' @ remote_host @ '':'' @ str_int remote_port)
         (tunnel_worker env (tunnel_host self) local_port remote_host remote_port)
         (tunnels self)\<rparr>"

text \<open>
  Two local connections arrive at a tunnel; opening the channel for the first one is
  refused, the second one would be served.
\<close>

definition env_refused :: tunnel_env where
  "env_refused =
     \<lparr>connect_result = None, listen_result = None,
      arrivals = [Incoming 7 (''127.0.0.1'', 50001) (Inl (Exception ''Connection refused'')),
                  Incoming 8 (''127.0.0.1'', 50002) (Inr 1)]\<rparr>"

text \<open>An arrival whose channel was opened, so that its relay threads were started.\<close>

fun served :: "incoming \<Rightarrow> bool" where
  "served (Incoming client_socket addr (Inr channel)) = True"
| "served a = False"

text \<open>A tunnel that serves one connection before the channel for the next is refused.\<close>

definition env_busy :: tunnel_env where
  "env_busy =
     \<lparr>connect_result = None, listen_result = None,
      arrivals = [Incoming 6 (''127.0.0.1'', 50000) (Inr 0),
                  Incoming 7 (''127.0.0.1'', 50001) (Inl (Exception ''Connection refused'')),
                  Incoming 8 (''127.0.0.1'', 50002) (Inr 1)]\<rparr>"

section \<open>Outcomes of one operation, call by call\<close>

text \<open>
  The two shapes of a \<open>TaskResult\<close> that \<open>execute_command\<close> builds (lines 244-252 and
  259-268), with the elapsed time as a parameter.
\<close>

abbreviation failure_result :: "SSHHost \<Rightarrow> string \<Rightarrow> exn \<Rightarrow> real \<Rightarrow> TaskResult" where
  "failure_result h cmd e dt \<equiv>
     \<lparr>host = hostname h, command = cmd, stdout = [], stderr = [], exit_code = - 1,
      execution_time = dt, success = False, error = Some (str e)\<rparr>"

abbreviation completed_result ::
  "SSHHost \<Rightarrow> string \<Rightarrow> string \<Rightarrow> string \<Rightarrow> int \<Rightarrow> real \<Rightarrow> TaskResult" where
  "completed_result h cmd out err code dt \<equiv>
     \<lparr>host = hostname h, command = cmd, stdout = out, stderr = err, exit_code = code,
      execution_time = dt, success = (code = 0), error = None\<rparr>"





text \<open>
  The hosts of the log records that \<open>execute_command\<close> writes, one per run, in the order
  of the log.
\<close>

fun execution_host :: "level \<times> message \<Rightarrow> string list" where
  "execution_host (lv, Comando_ejecutado h c) = [h]"
| "execution_host (lv, Error_ejecutando_comando h e) = [h]"
| "execution_host (lv, m) = []"

definition executed_hosts :: "(level \<times> message) list \<Rightarrow> string list" where
  "executed_hosts lg = concat (map execution_host lg)"


section \<open>The pool: invariant, reuse, eviction\<close>

lemma update_absent: "map_of al k = None \<Longrightarrow> AList.update k v al = al @ [(k, v)]"
  by (induction al) (auto split: if_splits)

lemma snd_delete_subset: "set (map snd (AList.delete k al)) \<subseteq> set (map snd al)"
  by (auto simp: AList.delete_eq)

lemma distinct_snd_delete: "distinct (map snd al) \<Longrightarrow> distinct (map snd (AList.delete k al))"
  by (simp add: AList.delete_eq distinct_map_filter)

lemma map_of_delete_same: "map_of (AList.delete k al) k = None"
  by (simp add: AList.delete_conv')

lemma pool_inv_init: "pool_inv (SSHConnectionPool_init n) (sys_init w)"
  by (simp add: pool_inv_def SSHConnectionPool_init_def)

lemma pool_inv_mono:
  "pool_inv pool s \<Longrightarrow> next_client s \<le> next_client s' \<Longrightarrow> pool_inv pool s'"
  by (fastforce simp: pool_inv_def list_all_iff)

lemma new_connection_inv:
  assumes "pool_inv pool s" "map_of (connections pool) (host_key h) = None"
    and "new_connection T h pool s = (r, pool', s')"
  shows "pool_inv pool' s'"
  using assms
  by (auto simp: new_connection_def pool_inv_def Let_def update_absent list_all_iff
      split: prod.splits option.splits) force+

lemma delete_inv:
  assumes "pool_inv pool s"
  shows "pool_inv (pool\<lparr>connections := AList.delete k (connections pool)\<rparr>) s"
  using assms snd_delete_subset[of k "connections pool"]
  by (auto simp: pool_inv_def distinct_delete distinct_snd_delete list_all_iff) force

text \<open>Every call of \<open>get_connection\<close> preserves the invariant, whatever it returns.\<close>

lemma get_connection_inv:
  assumes "pool_inv pool s" and "get_connection T h pool s = (r, pool', s')"
  shows "pool_inv pool' s'"
proof (cases "map_of (connections pool) (host_key h)")
  case None
  with assms show ?thesis
    by (auto simp: get_connection_def intro: new_connection_inv)
next
  case (Some conn)
  show ?thesis
  proof (cases "lib_is_active T conn (world s)")
    case True
    with Some assms show ?thesis by (simp add: get_connection_def)
  next
    case False
    let ?p = "pool\<lparr>connections := AList.delete (host_key h) (connections pool)\<rparr>"
    from False Some assms(2) have "new_connection T h ?p s = (r, pool', s')"
      by (simp add: get_connection_def)
    moreover have "pool_inv ?p s" by (rule delete_inv[OF assms(1)])
    moreover have "map_of (connections ?p) (host_key h) = None"
      by (simp add: map_of_delete_same)
    ultimately show ?thesis by (rule new_connection_inv[rotated 2])
  qed
qed

lemma get_connection_pooled:
  assumes "get_connection T h pool s = (Inr c, pool', s')"
  shows "map_of (connections pool') (host_key h) = Some c"
  using assms
  by (auto simp: get_connection_def new_connection_def Let_def AList.update_conv'
      split: option.splits if_splits prod.splits)

lemma get_connection_hit:
  assumes "map_of (connections pool) (host_key h) = Some c" "lib_is_active T c (world s)"
  shows "get_connection T h pool s = (Inr c, pool, s)"
  using assms by (simp add: get_connection_def)

lemma pool_inv_inj:
  assumes "pool_inv pool s" "map_of (connections pool) k = Some c"
    "map_of (connections pool) k' = Some c"
  shows "k = k'"
proof -
  from assms(2,3) have "(k, c) \<in> set (connections pool)" "(k', c) \<in> set (connections pool)"
    by (auto dest: map_of_SomeD)
  moreover from assms(1) have "inj_on snd (set (connections pool))"
    by (simp add: pool_inv_def distinct_map)
  ultimately show ?thesis
    using inj_onD[of snd "set (connections pool)" "(k, c)" "(k', c)"] by simp
qed

lemma get_connection_other:
  assumes "get_connection T hB pool s = (r, pool', s')" "k \<noteq> host_key hB"
  shows "map_of (connections pool') k = map_of (connections pool) k"
  using assms
  by (auto simp: get_connection_def new_connection_def Let_def AList.update_conv'
      AList.delete_conv' split: option.splits if_splits prod.splits)

lemma first_acquire:
  "get_connection (sim []) server1 (SSHConnectionPool_init 5) (sys_init net_up)
     = (Inr 0, pool_demo, sys_demo)"
  by (simp add: get_connection_def new_connection_def sim_def host_key_def str_int_def
      pool_connect_args_def SSHConnectionPool_init_def sys_init_def pool_demo_def
      sys_demo_def truthy_def server1_def)

lemma second_acquire:
  "get_connection (sim []) server2 pool_demo sys_demo
     = (Inr 1, pool_demo2, sys_demo\<lparr>next_client := 2\<rparr>)"
  by (simp add: get_connection_def new_connection_def sim_def host_key_def str_int_def
      pool_connect_args_def pool_demo_def pool_demo2_def sys_demo_def truthy_def server2_def)

text \<open>
  C2.  Identities are compared by their pooling key \<open>username@hostname:port\<close>.  Once
  \<open>get_connection\<close> has returned a client for identity A, that client is the pooled one;
  every call for A on a pool that holds this client, made while the client's transport
  reports active, returns the very same client and leaves pool and state untouched, so any
  number of repetitions does; and a later successful call for an identity B with another
  key returns a different client and leaves A's pooled client in place.  The pool is any pool satisfying the invariant, which
  holds for the empty pool and is preserved by every call.
\<close>

theorem get_connection_reuse_and_independence:
  assumes inv: "pool_inv pool s"
    and A: "get_connection T hA pool s = (Inr cA, pool1, s1)"
  shows "map_of (connections pool1) (host_key hA) = Some cA \<and>
    (\<forall>pool' s'.
        map_of (connections pool') (host_key hA) = Some cA \<and>
        lib_is_active T cA (world s') \<longrightarrow>
        get_connection T hA pool' s' = (Inr cA, pool', s')) \<and>
    (\<forall>hB s' cB pool2 s2.
        host_key hB \<noteq> host_key hA \<and> next_client s1 \<le> next_client s' \<and>
        get_connection T hB pool1 s' = (Inr cB, pool2, s2) \<longrightarrow>
        cB \<noteq> cA \<and> map_of (connections pool2) (host_key hA) = Some cA)"
proof (intro conjI allI impI)
  show pooled: "map_of (connections pool1) (host_key hA) = Some cA"
    by (rule get_connection_pooled[OF A])
  show "get_connection T hA pool' s' = (Inr cA, pool', s')"
    if "map_of (connections pool') (host_key hA) = Some cA \<and>
        lib_is_active T cA (world s')" for pool' s'
    using that by (simp add: get_connection_hit)
  fix hB s' cB pool2 s2
  assume B: "host_key hB \<noteq> host_key hA \<and> next_client s1 \<le> next_client s' \<and>
        get_connection T hB pool1 s' = (Inr cB, pool2, s2)"
  have inv1: "pool_inv pool1 s'"
    using get_connection_inv[OF inv A] B by (blast intro: pool_inv_mono)
  have inv2: "pool_inv pool2 s2"
    using get_connection_inv[OF inv1] B by blast
  show keep: "map_of (connections pool2) (host_key hA) = Some cA"
    using get_connection_other[of T hB pool1 s' "Inr cB" pool2 s2 "host_key hA"] B pooled
    by auto
  have "map_of (connections pool2) (host_key hB) = Some cB"
    using get_connection_pooled B by blast
  with inv2 keep show "cB \<noteq> cA"
    using B by (blast dest: pool_inv_inj)
qed

theorem get_connection_reuse_and_independence_witness:
  "pool_inv (SSHConnectionPool_init 5) (sys_init net_up) \<and>
   get_connection (sim []) server1 (SSHConnectionPool_init 5) (sys_init net_up)
     = (Inr 0, pool_demo, sys_demo) \<and>
   get_connection (sim []) server1 pool_demo sys_demo = (Inr 0, pool_demo, sys_demo) \<and>
   get_connection (sim []) server2 pool_demo sys_demo
     = (Inr 1, pool_demo2, sys_demo\<lparr>next_client := 2\<rparr>) \<and>
   (1::nat) \<noteq> 0 \<and> map_of (connections pool_demo2) (host_key server1) = Some 0"
proof -
  note c = get_connection_reuse_and_independence[OF pool_inv_init first_acquire]
  have act: "lib_is_active (sim []) 0 (world sys_demo)"
    by (simp add: sim_def sys_demo_def net_up_def)
  have ne: "host_key server2 \<noteq> host_key server1"
    by (simp add: host_key_def server1_def server2_def)
  from c act
  have "get_connection (sim []) server1 pool_demo sys_demo = (Inr 0, pool_demo, sys_demo)"
    by blast
  moreover from c ne second_acquire
  have "(1::nat) \<noteq> 0 \<and> map_of (connections pool_demo2) (host_key server1) = Some 0"
    by blast
  ultimately show ?thesis
    using pool_inv_init[of 5 net_up] first_acquire second_acquire by blast
qed

text \<open>
  C3, as stated, fails: the pool drops a dead session with \<open>del\<close> and never calls
  \<open>close\<close> on it.  On the simulated transport, whose world records every closed client,
  acquiring \<open>server1\<close> over a dead pooled client 0 returns the new client 1 and leaves the
  list of closed clients empty, whereas \<open>close_all\<close> on the same pool records client 0.
\<close>

theorem get_connection_stale_counterexample:
  "map_of (connections pool_stale) (host_key server1) = Some 0 \<and>
   \<not> lib_is_active (sim []) 0 (world sys_stale) \<and>
   fst (get_connection (sim []) server1 pool_stale sys_stale) = Inr 1 \<and>
   closed (world (snd (snd (get_connection (sim []) server1 pool_stale sys_stale)))) = [] \<and>
   closed (world (snd (close_all (sim []) pool_stale sys_stale))) = [0]"
  by (simp add: get_connection_def new_connection_def sim_def host_key_def str_int_def
      pool_connect_args_def pool_stale_def sys_stale_def truthy_def server1_def close_all_def)

lemma pooled_lt:
  "pool_inv pool s \<Longrightarrow> map_of (connections pool) k = Some c \<Longrightarrow> c < next_client s"
  by (fastforce simp: pool_inv_def list_all_iff dest: map_of_SomeD)

lemma delete_absent:
  assumes "distinct (map snd al)" "map_of al k = Some c"
  shows "c \<notin> snd ` set (AList.delete k al)"
proof
  assume "c \<in> snd ` set (AList.delete k al)"
  then obtain k' where k': "(k', c) \<in> set al" "k' \<noteq> k"
    by (auto simp: AList.delete_eq)
  from assms(2) have "(k, c) \<in> set al" by (rule map_of_SomeD)
  moreover from assms(1) have "inj_on snd (set al)" by (simp add: distinct_map)
  ultimately show False
    using k' inj_onD[of snd "set al" "(k', c)" "(k, c)"] by simp
qed

lemma get_connection_stale_eq:
  assumes "map_of (connections pool) (host_key h) = Some old"
    and "\<not> lib_is_active T old (world s)"
  shows "get_connection T h pool s =
    (case lib_connect T (next_client s) (pool_connect_args h) (world s) of
       (None, w) \<Rightarrow>
         (Inr (next_client s),
          pool\<lparr>connections :=
                 AList.delete (host_key h) (connections pool) @ [(host_key h, next_client s)]\<rparr>,
          s\<lparr>next_client := Suc (next_client s), world := w\<rparr>)
     | (Some e, w) \<Rightarrow>
         (Inl e, pool\<lparr>connections := AList.delete (host_key h) (connections pool)\<rparr>,
          s\<lparr>next_client := Suc (next_client s), world := w,
             logged := logged s @ [(ERROR, Error_conectando (host_key h) e)]\<rparr>))"
  using assms
  by (simp add: get_connection_def new_connection_def Let_def update_absent
      map_of_delete_same split: prod.splits option.splits)

text \<open>
  C3, amended.  When the pooled session of an identity reports inactive, the next
  \<open>get_connection\<close> for it never returns the old session and removes it from the pool
  without closing it.  If the new connect succeeds, a newly allocated client is returned
  and pooled; if it fails, the error is logged and raised and the identity is left without
  a pooled session.  On both paths the whole result is stated: the world is changed by
  that one connect call and by nothing else.
\<close>

theorem get_connection_stale:
  assumes inv: "pool_inv pool s"
    and old: "map_of (connections pool) (host_key h) = Some old"
    and dead: "\<not> lib_is_active T old (world s)"
  shows "fst (get_connection T h pool s) \<noteq> Inr old \<and>
    old \<notin> snd ` set (connections (fst (snd (get_connection T h pool s)))) \<and>
    (\<forall>w. lib_connect T (next_client s) (pool_connect_args h) (world s) = (None, w) \<longrightarrow>
       get_connection T h pool s =
         (Inr (next_client s),
          pool\<lparr>connections :=
                 AList.delete (host_key h) (connections pool) @ [(host_key h, next_client s)]\<rparr>,
          s\<lparr>next_client := Suc (next_client s), world := w\<rparr>)) \<and>
    (\<forall>e w. lib_connect T (next_client s) (pool_connect_args h) (world s) = (Some e, w) \<longrightarrow>
       get_connection T h pool s =
         (Inl e,
          pool\<lparr>connections := AList.delete (host_key h) (connections pool)\<rparr>,
          s\<lparr>next_client := Suc (next_client s), world := w,
             logged := logged s @ [(ERROR, Error_conectando (host_key h) e)]\<rparr>))"
proof -
  note eq = get_connection_stale_eq[OF old dead]
  have lt: "old < next_client s" by (rule pooled_lt[OF inv old])
  have gone: "old \<notin> snd ` set (AList.delete (host_key h) (connections pool))"
  proof (rule delete_absent[OF _ old])
    from inv show "distinct (map snd (connections pool))" by (simp add: pool_inv_def)
  qed
  obtain r w where c: "lib_connect T (next_client s) (pool_connect_args h) (world s) = (r, w)"
    by (cases "lib_connect T (next_client s) (pool_connect_args h) (world s)")
  show ?thesis
  proof (cases r)
    case None
    with eq c lt gone show ?thesis by auto
  next
    case (Some e)
    with eq c lt gone show ?thesis by auto
  qed
qed

theorem get_connection_stale_witness:
  "pool_inv pool_stale sys_stale \<and>
   map_of (connections pool_stale) (host_key server1) = Some 0 \<and>
   \<not> lib_is_active (sim []) 0 (world sys_stale) \<and>
   lib_connect (sim []) (next_client sys_stale) (pool_connect_args server1) (world sys_stale)
     = (None, world sys_stale) \<and>
   get_connection (sim []) server1 pool_stale sys_stale =
     (Inr 1, pool_stale\<lparr>connections := [(''admin@192.168.1.100:22'', 1)]\<rparr>,
      sys_stale\<lparr>next_client := 2\<rparr>)"
proof -
  have h1: "pool_inv pool_stale sys_stale"
    by (simp add: pool_inv_def pool_stale_def sys_stale_def)
  have h2: "map_of (connections pool_stale) (host_key server1) = Some 0"
    by (simp add: pool_stale_def host_key_def server1_def str_int_def)
  have h3: "\<not> lib_is_active (sim []) 0 (world sys_stale)"
    by (simp add: sim_def sys_stale_def)
  have h4: "lib_connect (sim []) (next_client sys_stale) (pool_connect_args server1)
      (world sys_stale) = (None, world sys_stale)"
    by (simp add: sim_def)
  from get_connection_stale[OF h1 h2 h3] h4
  have "get_connection (sim []) server1 pool_stale sys_stale =
    (Inr (next_client sys_stale),
     pool_stale\<lparr>connections :=
        AList.delete (host_key server1) (connections pool_stale) @
          [(host_key server1, next_client sys_stale)]\<rparr>,
     sys_stale\<lparr>next_client := Suc (next_client sys_stale), world := world sys_stale\<rparr>)"
    by blast
  then show ?thesis using h1 h2 h3 h4
    by (simp add: pool_stale_def sys_stale_def host_key_def server1_def str_int_def)
qed

text \<open>
  C7, as stated, fails when the identity had a dead pooled session: the session is evicted
  before the connect attempt, so after the failed connect the mapping has lost that entry.
\<close>

theorem get_connection_failure_counterexample:
  "fst (get_connection (sim [''192.168.1.100'']) server1 pool_stale sys_stale)
     = Inl (Exception ''timed out'') \<and>
   connections pool_stale = [(''admin@192.168.1.100:22'', 0)] \<and>
   connections (fst (snd (get_connection (sim [''192.168.1.100'']) server1 pool_stale sys_stale)))
     = []"
  by (simp add: get_connection_def new_connection_def sim_def host_key_def str_int_def
      pool_connect_args_def pool_stale_def sys_stale_def truthy_def server1_def)

lemma get_connection_miss_eq:
  assumes "map_of (connections pool) (host_key h) = None"
  shows "get_connection T h pool s =
    (case lib_connect T (next_client s) (pool_connect_args h) (world s) of
       (None, w) \<Rightarrow>
         (Inr (next_client s),
          pool\<lparr>connections := connections pool @ [(host_key h, next_client s)]\<rparr>,
          s\<lparr>next_client := Suc (next_client s), world := w\<rparr>)
     | (Some e, w) \<Rightarrow>
         (Inl e, pool,
          s\<lparr>next_client := Suc (next_client s), world := w,
             logged := logged s @ [(ERROR, Error_conectando (host_key h) e)]\<rparr>))"
  using assms
  by (simp add: get_connection_def new_connection_def Let_def update_absent
      split: prod.splits option.splits)

text \<open>
  C7, amended.  When the connect attempt inside \<open>get_connection\<close> fails, the exception
  is propagated and no entry for the identity is inserted: afterwards the identity has no
  pooled session, every other identity's entry is as before, and the mapping is the prior
  one without the identity's dead entry; it is unchanged when the identity had no entry.
\<close>

theorem get_connection_failure:
  assumes fail: "lib_connect T (next_client s) (pool_connect_args h) (world s) = (Some e, w)"
    and attempted: "\<forall>c. map_of (connections pool) (host_key h) = Some c \<longrightarrow>
                      \<not> lib_is_active T c (world s)"
  shows "fst (get_connection T h pool s) = Inl e \<and>
    connections (fst (snd (get_connection T h pool s))) =
      AList.delete (host_key h) (connections pool) \<and>
    map_of (connections (fst (snd (get_connection T h pool s)))) (host_key h) = None \<and>
    (\<forall>k. k \<noteq> host_key h \<longrightarrow>
       map_of (connections (fst (snd (get_connection T h pool s)))) k =
         map_of (connections pool) k) \<and>
    (map_of (connections pool) (host_key h) = None \<longrightarrow>
       fst (snd (get_connection T h pool s)) = pool)"
proof (cases "map_of (connections pool) (host_key h)")
  case None
  then have "host_key h \<notin> fst ` set (connections pool)"
    by (simp add: map_of_eq_None_iff)
  then have "AList.delete (host_key h) (connections pool) = connections pool"
    by (rule AList.delete_id)
  with None fail show ?thesis
    by (simp add: get_connection_miss_eq)
next
  case (Some c)
  with attempted have "\<not> lib_is_active T c (world s)" by blast
  from get_connection_stale_eq[OF Some this] fail Some show ?thesis
    by (simp add: map_of_delete_same)
qed

theorem get_connection_failure_witness:
  "lib_connect (sim [''192.168.1.100'']) (next_client sys_stale) (pool_connect_args server1)
      (world sys_stale) = (Some (Exception ''timed out''), world sys_stale) \<and>
   map_of (connections pool_stale) (host_key server1) = Some 0 \<and>
   \<not> lib_is_active (sim [''192.168.1.100'']) 0 (world sys_stale) \<and>
   fst (get_connection (sim [''192.168.1.100'']) server1 pool_stale sys_stale)
     = Inl (Exception ''timed out'') \<and>
   map_of (connections
     (fst (snd (get_connection (sim [''192.168.1.100'']) server1 pool_stale sys_stale))))
     (host_key server1) = None"
proof -
  have h1: "lib_connect (sim [''192.168.1.100'']) (next_client sys_stale)
      (pool_connect_args server1) (world sys_stale)
      = (Some (Exception ''timed out''), world sys_stale)"
    by (simp add: sim_def pool_connect_args_def server1_def truthy_def)
  have h2: "\<forall>c. map_of (connections pool_stale) (host_key server1) = Some c \<longrightarrow>
      \<not> lib_is_active (sim [''192.168.1.100'']) c (world sys_stale)"
    by (simp add: sim_def pool_stale_def sys_stale_def host_key_def server1_def str_int_def)
  have h3: "map_of (connections pool_stale) (host_key server1) = Some 0"
    by (simp add: pool_stale_def host_key_def server1_def str_int_def)
  have h4: "\<not> lib_is_active (sim [''192.168.1.100'']) 0 (world sys_stale)"
    by (simp add: sim_def sys_stale_def)
  from get_connection_failure[OF h1 h2] h1 h3 h4 show ?thesis by blast
qed

lemma get_connection_max_connections:
  "get_connection T h (pool\<lparr>max_connections := m\<rparr>) s =
     (case get_connection T h pool s of (r, p, s') \<Rightarrow> (r, p\<lparr>max_connections := m\<rparr>, s'))"
  by (simp add: get_connection_def new_connection_def Let_def
      split: option.splits prod.splits)

lemma acquire_all_grows:
  assumes "distinct (map host_key hs)"
    and "\<forall>h\<in>set hs. map_of (connections pool) (host_key h) = None"
    and "\<forall>h\<in>set hs. \<forall>c w. fst (lib_connect T c (pool_connect_args h) w) = None"
  shows "length (connections (fst (acquire_all T hs pool s))) =
           length (connections pool) + length hs \<and>
         max_connections (fst (acquire_all T hs pool s)) = max_connections pool"
  using assms
proof (induction hs arbitrary: pool s)
  case Nil
  then show ?case by simp
next
  case (Cons h hs)
  from Cons.prems(2) have miss: "map_of (connections pool) (host_key h) = None" by simp
  from Cons.prems(3) have "fst (lib_connect T (next_client s) (pool_connect_args h) (world s)) = None"
    by simp
  then obtain w where c: "lib_connect T (next_client s) (pool_connect_args h) (world s) = (None, w)"
    by (cases "lib_connect T (next_client s) (pool_connect_args h) (world s)") simp
  let ?p = "pool\<lparr>connections := connections pool @ [(host_key h, next_client s)]\<rparr>"
  let ?s = "s\<lparr>next_client := Suc (next_client s), world := w\<rparr>"
  have step: "get_connection T h pool s = (Inr (next_client s), ?p, ?s)"
    using c by (simp add: get_connection_miss_eq[OF miss])
  have absent: "\<forall>h'\<in>set hs. map_of (connections ?p) (host_key h') = None"
    using Cons.prems(1,2) by (auto simp: map_of_eq_None_iff) (metis imageI)
  have "length (connections (fst (acquire_all T hs ?p ?s))) =
           length (connections ?p) + length hs \<and>
         max_connections (fst (acquire_all T hs ?p ?s)) = max_connections ?p"
    using Cons.prems(1,3) absent by (intro Cons.IH) auto
  with step show ?case by simp
qed

text \<open>
  C9.  \<open>get_connection\<close> does not read \<open>max_connections\<close>: changing the field changes
  nothing but the field in the returned pool.  Acquiring hosts with pairwise distinct keys
  from an empty pool, every connect succeeding, pools one session per host whatever the
  limit \<open>m\<close> is, so the number of pooled sessions exceeds \<open>m\<close> as soon as the list is
  longer.
\<close>

theorem max_connections_not_enforced:
  assumes "distinct (map host_key hs)"
    and "\<forall>h\<in>set hs. \<forall>c w. fst (lib_connect T c (pool_connect_args h) w) = None"
  shows "(\<forall>h pool s' n. get_connection T h (pool\<lparr>max_connections := n\<rparr>) s' =
           (case get_connection T h pool s' of
              (r, p, s'') \<Rightarrow> (r, p\<lparr>max_connections := n\<rparr>, s''))) \<and>
         length (connections (fst (acquire_all T hs (SSHConnectionPool_init m) s))) =
           length hs \<and>
         max_connections (fst (acquire_all T hs (SSHConnectionPool_init m) s)) = m"
  using acquire_all_grows[OF assms(1) _ assms(2), of "SSHConnectionPool_init m" s]
    get_connection_max_connections[of T]
  by (simp add: SSHConnectionPool_init_def)

theorem max_connections_not_enforced_witness:
  "distinct (map host_key [server1, server2]) \<and>
   (\<forall>c w. fst (lib_connect (sim []) c (pool_connect_args server1) w) = None) \<and>
   (\<forall>c w. fst (lib_connect (sim []) c (pool_connect_args server2) w) = None) \<and>
   length (connections (fst (acquire_all (sim []) [server1, server2]
       (SSHConnectionPool_init 1) (sys_init net_up)))) = 2 \<and>
   max_connections (fst (acquire_all (sim []) [server1, server2]
       (SSHConnectionPool_init 1) (sys_init net_up))) = 1"
proof -
  have h1: "distinct (map host_key [server1, server2])"
    by (simp add: host_key_def server1_def server2_def)
  have h2: "\<forall>h\<in>set [server1, server2]. \<forall>c w.
       fst (lib_connect (sim []) c (pool_connect_args h) w) = None"
    by (simp add: sim_def)
  from max_connections_not_enforced[OF h1 h2, of 1 "sys_init net_up"] h1 h2
  show ?thesis by simp
qed

section \<open>execute_command\<close>

lemma execute_command_ran:
  assumes "run_command T (connection_pool self) h cmd s = (Inr (out, err, code), pool1, s1)"
  shows "fst (execute_command T self h cmd s) =
    \<lparr>host = hostname h, command = cmd, stdout = out, stderr = err, exit_code = code,
     execution_time = lib_time T (world s1) - lib_time T (world s),
     success = (code = 0), error = None\<rparr>"
  using assms by (simp add: execute_command_def)

lemma execute_command_raised:
  assumes "run_command T (connection_pool self) h cmd s = (Inl e, pool1, s1)"
  shows "fst (execute_command T self h cmd s) =
    \<lparr>host = hostname h, command = cmd, stdout = [], stderr = [], exit_code = - 1,
     execution_time = lib_time T (world s1) - lib_time T (world s),
     success = False, error = Some (str e)\<rparr>"
  using assms by (simp add: execute_command_def)

text \<open>
  C4.  \<open>execute_command\<close>, call by call on the transport.  If acquisition,
  \<open>exec_command\<close>, both reads, both decodings and \<open>recv_exit_status\<close> return, the
  \<open>TaskResult\<close> carries the remote exit status and the decoded output, \<open>success\<close> is
  \<open>exit_code = 0\<close> and \<open>error\<close> is \<open>None\<close>.  If any of these seven calls raises
  \<open>e\<close>, the \<open>TaskResult\<close> has exit code -1, \<open>success = False\<close>, empty \<open>stdout\<close>
  and \<open>stderr\<close> and \<open>error = str(e)\<close>.  The elapsed time runs from the state before
  acquisition to the world left by the last call made.
\<close>

theorem execute_command_result:
  "(\<forall>e pool1 s1.
      get_connection T h (connection_pool self) s = (Inl e, pool1, s1) \<longrightarrow>
      fst (execute_command T self h cmd s) =
        failure_result h cmd e (lib_time T (world s1) - lib_time T (world s))) \<and>
   (\<forall>ssh pool1 s1.
      get_connection T h (connection_pool self) s = (Inr ssh, pool1, s1) \<longrightarrow>
      (\<forall>e w2.
         lib_exec_command T ssh cmd (world s1) = (Inl e, w2) \<longrightarrow>
         fst (execute_command T self h cmd s) =
           failure_result h cmd e (lib_time T w2 - lib_time T (world s))) \<and>
      (\<forall>ch w2.
         lib_exec_command T ssh cmd (world s1) = (Inr ch, w2) \<longrightarrow>
         (\<forall>e w3.
            lib_read_stdout T ch w2 = (Inl e, w3) \<longrightarrow>
            fst (execute_command T self h cmd s) =
              failure_result h cmd e (lib_time T w3 - lib_time T (world s))) \<and>
         (\<forall>d1 w3.
            lib_read_stdout T ch w2 = (Inr d1, w3) \<longrightarrow>
            (\<forall>e.
               lib_decode T d1 = Inl e \<longrightarrow>
               fst (execute_command T self h cmd s) =
                 failure_result h cmd e (lib_time T w3 - lib_time T (world s))) \<and>
            (\<forall>out.
               lib_decode T d1 = Inr out \<longrightarrow>
               (\<forall>e w4.
                  lib_read_stderr T ch w3 = (Inl e, w4) \<longrightarrow>
                  fst (execute_command T self h cmd s) =
                    failure_result h cmd e (lib_time T w4 - lib_time T (world s))) \<and>
               (\<forall>d2 w4.
                  lib_read_stderr T ch w3 = (Inr d2, w4) \<longrightarrow>
                  (\<forall>e.
                     lib_decode T d2 = Inl e \<longrightarrow>
                     fst (execute_command T self h cmd s) =
                       failure_result h cmd e (lib_time T w4 - lib_time T (world s))) \<and>
                  (\<forall>err.
                     lib_decode T d2 = Inr err \<longrightarrow>
                     (\<forall>e w5.
                        lib_recv_exit_status T ch w4 = (Inl e, w5) \<longrightarrow>
                        fst (execute_command T self h cmd s) =
                          failure_result h cmd e (lib_time T w5 - lib_time T (world s))) \<and>
                     (\<forall>code w5.
                        lib_recv_exit_status T ch w4 = (Inr code, w5) \<longrightarrow>
                        fst (execute_command T self h cmd s) =
                          completed_result h cmd out err code
                            (lib_time T w5 - lib_time T (world s)))))))))"
  by (simp add: execute_command_def run_command_def read_decoded_def)

lemma main_pool: "connection_pool main_automation = SSHConnectionPool_init 5"
  by (simp add: main_automation_def add_host_def AdvancedSSHAutomation_init_def)

lemma failed_acquire:
  "get_connection (sim [''192.168.1.100'']) server1 (SSHConnectionPool_init 5)
     (sys_init net_up) =
     (Inl (Exception ''timed out''), SSHConnectionPool_init 5,
      \<lparr>world = net_up, next_client = 1,
       logged = [(ERROR, Error_conectando ''admin@192.168.1.100:22''
                   (Exception ''timed out''))]\<rparr>)"
  by (simp add: get_connection_def new_connection_def sim_def host_key_def str_int_def
      pool_connect_args_def SSHConnectionPool_init_def sys_init_def truthy_def server1_def)

text \<open>
  C4 on the simulated transport: \<open>exit 7\<close> on a reachable host gives exit code 7, no
  success and no error text; the same command on an unreachable host gives -1 and the text
  of the connection error.
\<close>

theorem execute_command_result_witness:
  "get_connection (sim []) server1 (connection_pool main_automation) (sys_init net_up) =
     (Inr 0, pool_demo, sys_demo) \<and>
   lib_exec_command (sim []) 0 ''exit 7'' (world sys_demo) = (Inr ''exit 7'', net_up) \<and>
   lib_recv_exit_status (sim []) ''exit 7'' net_up = (Inr 7, net_up) \<and>
   fst (execute_command (sim []) main_automation server1 ''exit 7'' (sys_init net_up)) =
     \<lparr>host = ''192.168.1.100'', command = ''exit 7'', stdout = [], stderr = [],
      exit_code = 7, execution_time = 0, success = False, error = None\<rparr> \<and>
   get_connection (sim [''192.168.1.100'']) server1 (connection_pool main_automation)
     (sys_init net_up) =
     (Inl (Exception ''timed out''), SSHConnectionPool_init 5,
      \<lparr>world = net_up, next_client = 1,
       logged = [(ERROR, Error_conectando ''admin@192.168.1.100:22''
                   (Exception ''timed out''))]\<rparr>) \<and>
   fst (execute_command (sim [''192.168.1.100'']) main_automation server1 ''exit 7''
     (sys_init net_up)) =
     \<lparr>host = ''192.168.1.100'', command = ''exit 7'', stdout = [], stderr = [],
      exit_code = - 1, execution_time = 0, success = False, error = Some ''timed out''\<rparr>"
proof -
  have g1: "get_connection (sim []) server1 (connection_pool main_automation)
      (sys_init net_up) = (Inr 0, pool_demo, sys_demo)"
    by (simp add: main_pool first_acquire)
  have c1: "lib_exec_command (sim []) 0 ''exit 7'' (world sys_demo) = (Inr ''exit 7'', net_up)"
    by (simp add: sim_def sys_demo_def net_up_def)
  have c2: "lib_read_stdout (sim []) ''exit 7'' net_up = (Inr [], net_up)"
    by (simp add: sim_def)
  have c3: "lib_decode (sim []) [] = Inr []" by (simp add: sim_def)
  have c4: "lib_read_stderr (sim []) ''exit 7'' net_up = (Inr [], net_up)"
    by (simp add: sim_def)
  have c5: "lib_recv_exit_status (sim []) ''exit 7'' net_up = (Inr 7, net_up)"
    by (simp add: sim_def)
  have g2: "get_connection (sim [''192.168.1.100'']) server1
      (connection_pool main_automation) (sys_init net_up) =
     (Inl (Exception ''timed out''), SSHConnectionPool_init 5,
      \<lparr>world = net_up, next_client = 1,
       logged = [(ERROR, Error_conectando ''admin@192.168.1.100:22''
                   (Exception ''timed out''))]\<rparr>)"
    by (simp add: main_pool failed_acquire)
  note r1 = execute_command_result[of "sim []" server1 main_automation "sys_init net_up"
      "''exit 7''", THEN conjunct2, rule_format, OF g1,
      THEN conjunct2, rule_format, OF c1, THEN conjunct2, rule_format, OF c2,
      THEN conjunct2, rule_format, OF c3, THEN conjunct2, rule_format, OF c4,
      THEN conjunct2, rule_format, OF c3, THEN conjunct2, rule_format, OF c5]
  note r2 = execute_command_result[of "sim [''192.168.1.100'']" server1 main_automation
      "sys_init net_up" "''exit 7''", THEN conjunct1, rule_format, OF g2]
  from r1 r2 g1 g2 c1 c5 show ?thesis
    by (simp add: sim_def server1_def)
qed




section \<open>execute_parallel\<close>

lemma nth_take_drop_mset:
  assumes "i < length ys"
  shows "mset (ys ! i # take i ys @ drop (Suc i) ys) = mset ys"
proof -
  have "mset ys = mset (take i ys @ ys ! i # drop (Suc i) ys)"
    using id_take_nth_drop[OF assms] by simp
  then show ?thesis by simp
qed

lemma completion_order_mset: "mset (completion_order sch xs) = mset xs"
proof (induction sch xs rule: completion_order.induct)
  case (1 sch)
  show ?case by simp
next
  case (2 sch x xs)
  let ?i = "sch (length xs) mod Suc (length xs)"
  have lt: "?i < length (x # xs)" by simp
  have "mset (completion_order sch (x # xs)) =
        mset ((x # xs) ! ?i # take ?i (x # xs) @ drop (Suc ?i) (x # xs))"
    using "2.IH"[of ?i] by (simp add: Let_def del: nth_Cons_Suc take_Suc_Cons drop_Suc_Cons)
  also have "\<dots> = mset (x # xs)" by (rule nth_take_drop_mset[OF lt])
  finally show ?case .
qed

lemma completion_order_length: "length (completion_order sch xs) = length xs"
  using completion_order_mset[of sch xs] by (metis size_mset)

lemma completion_order_set: "set (completion_order sch xs) = set xs"
  using completion_order_mset[of sch xs] by (metis set_mset_mset)

lemma completion_order_cong:
  "(\<And>n. n < length xs \<Longrightarrow> sch n = sch' n) \<Longrightarrow>
   completion_order sch xs = completion_order sch' xs"
proof (induction sch xs rule: completion_order.induct)
  case (1 sch)
  show ?case by simp
next
  case (2 sch x xs)
  let ?i = "sch (length xs) mod Suc (length xs)"
  have eq: "sch (length xs) = sch' (length xs)" using "2.prems" by simp
  have "completion_order sch (take ?i (x # xs) @ drop (Suc ?i) (x # xs)) =
        completion_order sch' (take ?i (x # xs) @ drop (Suc ?i) (x # xs))"
  proof (rule "2.IH"[OF refl])
    fix n assume "n < length (take ?i (x # xs) @ drop (Suc ?i) (x # xs))"
    then have "n < length (x # xs)" by auto
    then show "sch n = sch' n" by (rule "2.prems")
  qed
  then show ?case using eq
    by (simp add: Let_def del: nth_Cons_Suc take_Suc_Cons drop_Suc_Cons)
qed

text \<open>
  The scheduler is no restriction: every ordering of the submitted futures is the
  completion order of some scheduler.
\<close>

lemma completion_order_any:
  "mset ys = mset xs \<Longrightarrow> \<exists>sch. completion_order sch xs = ys"
proof (induction ys arbitrary: xs)
  case Nil
  then show ?case by simp
next
  case (Cons y ys)
  from Cons.prems have "y \<in> set xs" by (metis list.set_intros(1) mset_eq_setD)
  then obtain i where i: "i < length xs" "xs ! i = y" by (auto simp: in_set_conv_nth)
  let ?rest = "take i xs @ drop (Suc i) xs"
  have "mset xs = mset (take i xs @ xs ! i # drop (Suc i) xs)"
    using id_take_nth_drop[OF i(1)] by simp
  with Cons.prems i(2) have "mset ys = mset ?rest" by simp
  from Cons.IH[OF this] obtain sch' where sch': "completion_order sch' ?rest = ys" by blast
  obtain x xs' where xs: "xs = x # xs'" using i(1) by (cases xs) auto
  let ?sch = "sch'(length xs' := i)"
  have len: "length ?rest = length xs'" using i(1) xs by auto
  have "completion_order ?sch ?rest = completion_order sch' ?rest"
  proof (rule completion_order_cong)
    fix n assume "n < length ?rest"
    with len have "n \<noteq> length xs'" by simp
    then show "?sch n = sch' n" by simp
  qed
  moreover have "i mod Suc (length xs') = i" using i(1) xs by simp
  ultimately have "completion_order ?sch xs = y # ys"
    using sch' i(2) xs by (simp add: Let_def del: nth_Cons_Suc take_Suc_Cons drop_Suc_Cons)
  then show ?case by blast
qed

lemma submitted_labels:
  "map fst (submitted self labels) = filter (\<lambda>l. hosts self l \<noteq> None) labels"
  by (induction labels) (auto simp: submitted_def split: option.splits)

lemma submitted_filter:
  "submitted self (filter (\<lambda>l. hosts self l \<noteq> None) labels) = submitted self labels"
  by (induction labels) (auto simp: submitted_def split: option.splits)

lemma submitted_hosts: "(l, h) \<in> set (submitted self labels) \<Longrightarrow> hosts self l = Some h"
  by (auto simp: submitted_def split: option.splits)

lemma execute_command_host_command:
  "host (fst (execute_command T self h cmd s)) = hostname h \<and>
   command (fst (execute_command T self h cmd s)) = cmd"
proof -
  obtain r pool1 s1 where rc: "run_command T (connection_pool self) h cmd s = (r, pool1, s1)"
    by (cases "run_command T (connection_pool self) h cmd s")
  show ?thesis
  proof (cases r)
    case (Inl e)
    with rc show ?thesis by (simp add: execute_command_raised)
  next
    case (Inr v)
    obtain out err code where "v = (out, err, code)" by (cases v)
    with Inr rc show ?thesis by (simp add: execute_command_ran)
  qed
qed

lemma collect_results:
  "\<exists>new self' s'. collect T cmd cb tasks rs self s = (rs @ new, self', s') \<and>
     list_all2 (\<lambda>r (l, h). \<exists>self0 s0. r = fst (execute_command T self0 h cmd s0)) new tasks"
proof (induction tasks arbitrary: rs self s)
  case Nil
  show ?case by simp
next
  case (Cons t tasks)
  obtain l h where t: "t = (l, h)" by (cases t)
  obtain result self1 s1 where ex: "execute_command T self h cmd s = (result, self1, s1)"
    by (cases "execute_command T self h cmd s")
  let ?s2 = "case cb of None \<Rightarrow> s1
             | Some f \<Rightarrow>
                 (case f result (world s1) of
                    (None, w) \<Rightarrow> s1\<lparr>world := w\<rparr>
                  | (Some e, w) \<Rightarrow>
                      s1\<lparr>world := w,
                         logged := logged s1 @
                           [(ERROR, Error_procesando_resultado l e)]\<rparr>)"
  from Cons.IH[of "rs @ [result]" self1 ?s2]
  obtain new self' s' where
    rest: "collect T cmd cb tasks (rs @ [result]) self1 ?s2 = ((rs @ [result]) @ new, self', s')"
    and rel: "list_all2 (\<lambda>r (l, h). \<exists>self0 s0. r = fst (execute_command T self0 h cmd s0))
                new tasks"
    by blast
  have "collect T cmd cb (t # tasks) rs self s = (rs @ (result # new), self', s')"
    using t ex rest by simp
  moreover have "\<exists>self0 s0. result = fst (execute_command T self0 h cmd s0)"
    using ex by (metis fst_conv)
  ultimately show ?case using rel t by auto
qed

lemma execute_parallel_results:
  assumes "0 < max_concurrent self"
  shows "\<exists>rs self' s'. execute_parallel T sch self labels cmd cb s = (Inr rs, self', s') \<and>
     list_all2 (\<lambda>r (l, h). \<exists>self0 s0. r = fst (execute_command T self0 h cmd s0)) rs
       (completion_order sch (submitted self labels))"
proof -
  from collect_results[of T cmd cb "completion_order sch (submitted self labels)" "[]" self s]
  obtain new self' s' where
    c: "collect T cmd cb (completion_order sch (submitted self labels)) [] self s
          = (new, self', s')"
    and rel: "list_all2 (\<lambda>r (l, h). \<exists>self0 s0. r = fst (execute_command T self0 h cmd s0))
       new (completion_order sch (submitted self labels))"
    by auto
  from assms c have "execute_parallel T sch self labels cmd cb s =
      (Inr new, self'\<lparr>results := results self' @ new\<rparr>, s')"
    by (simp add: execute_parallel_def)
  with rel show ?thesis by blast
qed

lemma known_tasks_mset:
  "mset (map fst (completion_order sch (submitted self labels))) =
     mset (filter (\<lambda>l. hosts self l \<noteq> None) labels)"
proof -
  have "mset (map fst (completion_order sch (submitted self labels))) =
        image_mset fst (mset (completion_order sch (submitted self labels)))"
    by simp
  also have "\<dots> = image_mset fst (mset (submitted self labels))"
    by (simp only: completion_order_mset)
  also have "\<dots> = mset (map fst (submitted self labels))" by simp
  finally show ?thesis by (simp only: submitted_labels)
qed

lemma known_tasks_length:
  "length (completion_order sch (submitted self labels)) =
     length (filter (\<lambda>l. hosts self l \<noteq> None) labels)"
  using submitted_labels[of self labels]
  by (metis completion_order_length length_map)









text \<open>
  Every run of \<open>execute_command\<close> writes exactly one record of its own to the log;
  \<open>get_connection\<close> and the handling of a failing callback write records of other kinds.
\<close>

lemma executed_hosts_append [simp]:
  "executed_hosts (xs @ ys) = executed_hosts xs @ executed_hosts ys"
  by (simp add: executed_hosts_def)






lemma main_hosts:
  "hosts main_automation = [''server1'' \<mapsto> server1, ''server2'' \<mapsto> server2]"
  by (simp add: main_automation_def add_host_def AdvancedSSHAutomation_init_def)

lemma main_max: "max_concurrent main_automation = 5"
  by (simp add: main_automation_def add_host_def AdvancedSSHAutomation_init_def)






text \<open>
  C5.  With a positive worker limit (\<open>ThreadPoolExecutor\<close> rejects any other),
  \<open>execute_parallel\<close> returns normally, for every list of labels, scheduler and
  callback.  The returned list has one \<open>TaskResult\<close> per occurrence of a label that is
  in the inventory: it is as long as the list of those labels, and position by position
  it matches the completed tasks, which are a permutation of those labels, each result
  naming the host and the command of its task.  Labels absent from the inventory have no
  effect at all: the call equals the call on the list without them.
\<close>

theorem execute_parallel_known_labels:
  assumes "0 < max_concurrent self"
  shows "\<exists>rs self' s'.
     execute_parallel T sch self labels cmd cb s = (Inr rs, self', s') \<and>
     length rs = length (filter (\<lambda>l. hosts self l \<noteq> None) labels) \<and>
     list_all2 (\<lambda>r (l, h). hosts self l = Some h \<and> host r = hostname h \<and> command r = cmd)
       rs (completion_order sch (submitted self labels)) \<and>
     mset (map fst (completion_order sch (submitted self labels))) =
       mset (filter (\<lambda>l. hosts self l \<noteq> None) labels) \<and>
     execute_parallel T sch self (filter (\<lambda>l. hosts self l \<noteq> None) labels) cmd cb s =
       execute_parallel T sch self labels cmd cb s"
proof -
  let ?order = "completion_order sch (submitted self labels)"
  from execute_parallel_results[OF assms, of T sch labels cmd cb s]
  obtain rs self' s' where
    run: "execute_parallel T sch self labels cmd cb s = (Inr rs, self', s')"
    and rel: "list_all2 (\<lambda>r (l, h). \<exists>self0 s0. r = fst (execute_command T self0 h cmd s0))
                rs ?order"
    by blast
  have len: "length rs = length (filter (\<lambda>l. hosts self l \<noteq> None) labels)"
    using list_all2_lengthD[OF rel] by (simp only: known_tasks_length)
  have rel': "list_all2 (\<lambda>r (l, h). hosts self l = Some h \<and> host r = hostname h \<and>
                 command r = cmd) rs ?order"
  proof (rule list.rel_mono_strong[OF rel])
    fix r t
    assume t: "t \<in> set ?order"
      and r: "case t of (l, h) \<Rightarrow> \<exists>self0 s0. r = fst (execute_command T self0 h cmd s0)"
    obtain l h where lh: "t = (l, h)" by (cases t)
    from t lh have "hosts self l = Some h"
      by (simp add: completion_order_set submitted_hosts)
    moreover from r lh have "host r = hostname h \<and> command r = cmd"
      by (auto simp: execute_command_host_command)
    ultimately show "case t of (l, h) \<Rightarrow>
        hosts self l = Some h \<and> host r = hostname h \<and> command r = cmd"
      using lh by simp
  qed
  have same: "execute_parallel T sch self (filter (\<lambda>l. hosts self l \<noteq> None) labels) cmd cb s =
       execute_parallel T sch self labels cmd cb s"
    by (simp only: execute_parallel_def submitted_filter)
  from run len rel' known_tasks_mset[of sch self labels] same show ?thesis by blast
qed





text \<open>
  C5 on the inventory of \<open>main\<close>: of four labels one is unknown, three results return.
\<close>

theorem execute_parallel_known_labels_witness:
  "0 < max_concurrent main_automation \<and>
   filter (\<lambda>l. hosts main_automation l \<noteq> None) [''server1'', ''nope'', ''server2'', ''server1'']
     = [''server1'', ''server2'', ''server1''] \<and>
   (\<exists>rs. fst (execute_parallel (sim [''192.168.1.100'']) (\<lambda>n. 1) main_automation
        [''server1'', ''nope'', ''server2'', ''server1''] ''uname -a'' None (sys_init net_up))
        = Inr rs \<and> length rs = 3) \<and>
   execute_parallel (sim [''192.168.1.100'']) (\<lambda>n. 1) main_automation
     [''server1'', ''server2'', ''server1''] ''uname -a'' None (sys_init net_up) =
   execute_parallel (sim [''192.168.1.100'']) (\<lambda>n. 1) main_automation
     [''server1'', ''nope'', ''server2'', ''server1''] ''uname -a'' None (sys_init net_up)"
proof -
  have h: "0 < max_concurrent main_automation" by (simp add: main_max)
  have f: "filter (\<lambda>l. hosts main_automation l \<noteq> None)
      [''server1'', ''nope'', ''server2'', ''server1''] = [''server1'', ''server2'', ''server1'']"
    by (simp add: main_hosts)
  from execute_parallel_known_labels[OF h, of "sim [''192.168.1.100'']" "\<lambda>n. 1"
      "[''server1'', ''nope'', ''server2'', ''server1'']" "''uname -a''" None "sys_init net_up"]
  obtain rs self' s' where
    run: "execute_parallel (sim [''192.168.1.100'']) (\<lambda>n. 1) main_automation
       [''server1'', ''nope'', ''server2'', ''server1''] ''uname -a'' None (sys_init net_up)
       = (Inr rs, self', s')"
    and len: "length rs = length (filter (\<lambda>l. hosts main_automation l \<noteq> None)
       [''server1'', ''nope'', ''server2'', ''server1''])"
    and same: "execute_parallel (sim [''192.168.1.100'']) (\<lambda>n. 1) main_automation
       (filter (\<lambda>l. hosts main_automation l \<noteq> None)
          [''server1'', ''nope'', ''server2'', ''server1'']) ''uname -a'' None (sys_init net_up) =
       execute_parallel (sim [''192.168.1.100'']) (\<lambda>n. 1) main_automation
         [''server1'', ''nope'', ''server2'', ''server1''] ''uname -a'' None (sys_init net_up)"
    by blast
  from len have "length rs = 3" by (simp only: f) simp
  with run have "\<exists>rs. fst (execute_parallel (sim [''192.168.1.100'']) (\<lambda>n. 1) main_automation
        [''server1'', ''nope'', ''server2'', ''server1''] ''uname -a'' None (sys_init net_up))
        = Inr rs \<and> length rs = 3"
    by simp
  moreover from same have "execute_parallel (sim [''192.168.1.100'']) (\<lambda>n. 1) main_automation
     [''server1'', ''server2'', ''server1''] ''uname -a'' None (sys_init net_up) =
   execute_parallel (sim [''192.168.1.100'']) (\<lambda>n. 1) main_automation
     [''server1'', ''nope'', ''server2'', ''server1''] ''uname -a'' None (sys_init net_up)"
    by (simp only: f)
  ultimately show ?thesis using h f by blast
qed


section \<open>The tunnel worker\<close>

text \<open>
  C6, as stated, fails: \<open>open_channel\<close> is called inside the one \<open>try\<close> that encloses
  the accept loop.  When the channel for the connection on socket 7 is refused, the worker
  logs the error, closes its SSH client and ends; the connection on socket 8, which it
  would have served, is never accepted.
\<close>

theorem tunnel_channel_error_counterexample:
  "tunnel_worker env_refused server1 9000 ''127.0.0.1'' 8080 =
     ([Ssh_connect (tunnel_connect_args server1), Socket_listen 9000,
       Logged INFO (Tunel_SSH_activo 9000 ''127.0.0.1'' 8080),
       Socket_accept 7 (''127.0.0.1'', 50001),
       Open_channel (''127.0.0.1'', 8080) (''127.0.0.1'', 50001),
       Logged ERROR (Error_en_tunel_SSH (Exception ''Connection refused'')),
       Ssh_close],
      Finished) \<and>
   Socket_accept 8 (''127.0.0.1'', 50002) \<notin>
     set (fst (tunnel_worker env_refused server1 9000 ''127.0.0.1'' 8080)) \<and>
   tunnel_worker (env_refused\<lparr>arrivals := [Incoming 8 (''127.0.0.1'', 50002) (Inr 1)]\<rparr>)
       server1 9000 ''127.0.0.1'' 8080 =
     ([Ssh_connect (tunnel_connect_args server1), Socket_listen 9000,
       Logged INFO (Tunel_SSH_activo 9000 ''127.0.0.1'' 8080),
       Socket_accept 8 (''127.0.0.1'', 50002),
       Open_channel (''127.0.0.1'', 8080) (''127.0.0.1'', 50002),
       Relay_started 8 1],
      Accepting)"
  by (simp add: tunnel_worker_def env_refused_def)

lemma accept_loop_served:
  assumes "\<forall>a\<in>set pre. served a"
  shows "snd (accept_loop rh rp pre) = None \<and>
    accept_loop rh rp (pre @ rest) =
      (fst (accept_loop rh rp pre) @ fst (accept_loop rh rp rest),
       snd (accept_loop rh rp rest))"
  using assms
proof (induction pre)
  case Nil
  show ?case by simp
next
  case (Cons a pre)
  from Cons.prems obtain client_socket addr channel
    where a: "a = Incoming client_socket addr (Inr channel)"
    by (cases a rule: served.cases) auto
  from Cons have IH: "snd (accept_loop rh rp pre) = None \<and>
    accept_loop rh rp (pre @ rest) =
      (fst (accept_loop rh rp pre) @ fst (accept_loop rh rp rest),
       snd (accept_loop rh rp rest))" by simp
  then show ?case by (auto simp: a split: prod.splits)
qed

text \<open>
  C6, amended.  Once a tunnel is listening, an error while opening the remote channel for
  an accepted local connection is logged and ends the worker: after the connections served
  before it, the worker accepts the connection, fails to open its channel, logs the error
  and closes its SSH client; whatever arrives later is not accepted.
\<close>

theorem tunnel_channel_error:
  assumes "connect_result env = None" and "listen_result env = None"
    and "arrivals env = pre @ Incoming client_socket addr (Inl e) # post"
    and "\<forall>a\<in>set pre. served a"
  shows "tunnel_worker env h local_port remote_host remote_port =
     (Ssh_connect (tunnel_connect_args h) # Socket_listen local_port #
      Logged INFO (Tunel_SSH_activo local_port remote_host remote_port) #
      fst (accept_loop remote_host remote_port pre) @
      [Socket_accept client_socket addr, Open_channel (remote_host, remote_port) addr,
       Logged ERROR (Error_en_tunel_SSH e), Ssh_close],
      Finished) \<and>
    snd (accept_loop remote_host remote_port pre) = None"
proof -
  from accept_loop_served[OF assms(4), of remote_host remote_port
      "Incoming client_socket addr (Inl e) # post"]
  have none: "snd (accept_loop remote_host remote_port pre) = None"
    and loop: "accept_loop remote_host remote_port (arrivals env) =
      (fst (accept_loop remote_host remote_port pre) @
         [Socket_accept client_socket addr, Open_channel (remote_host, remote_port) addr],
       Some e)"
    by (simp_all add: assms(3))
  from assms(1,2) loop none show ?thesis
    by (simp add: tunnel_worker_def)
qed

text \<open>
  C6, amended, on a tunnel that serves one connection before the refused one.
\<close>

theorem tunnel_channel_error_witness:
  "connect_result env_busy = None \<and> listen_result env_busy = None \<and>
   arrivals env_busy =
     [Incoming 6 (''127.0.0.1'', 50000) (Inr 0)] @
     Incoming 7 (''127.0.0.1'', 50001) (Inl (Exception ''Connection refused'')) #
     [Incoming 8 (''127.0.0.1'', 50002) (Inr 1)] \<and>
   served (Incoming 6 (''127.0.0.1'', 50000) (Inr 0)) \<and>
   tunnel_worker env_busy server1 9000 ''127.0.0.1'' 8080 =
     ([Ssh_connect (tunnel_connect_args server1), Socket_listen 9000,
       Logged INFO (Tunel_SSH_activo 9000 ''127.0.0.1'' 8080),
       Socket_accept 6 (''127.0.0.1'', 50000),
       Open_channel (''127.0.0.1'', 8080) (''127.0.0.1'', 50000),
       Relay_started 6 0,
       Socket_accept 7 (''127.0.0.1'', 50001),
       Open_channel (''127.0.0.1'', 8080) (''127.0.0.1'', 50001),
       Logged ERROR (Error_en_tunel_SSH (Exception ''Connection refused'')),
       Ssh_close],
      Finished)"
proof -
  have h1: "connect_result env_busy = None" by (simp add: env_busy_def)
  have h2: "listen_result env_busy = None" by (simp add: env_busy_def)
  have h3: "arrivals env_busy =
     [Incoming 6 (''127.0.0.1'', 50000) (Inr 0)] @
     Incoming 7 (''127.0.0.1'', 50001) (Inl (Exception ''Connection refused'')) #
     [Incoming 8 (''127.0.0.1'', 50002) (Inr 1)]"
    by (simp add: env_busy_def)
  have h4: "\<forall>a\<in>set [Incoming 6 (''127.0.0.1'', 50000) (Inr 0)]. served a" by simp
  from tunnel_channel_error[OF h1 h2 h3 h4, of server1 9000 "''127.0.0.1''" 8080] h1 h2 h3
  show ?thesis by simp
qed

lemma pool_connect_args_timeout: "ca_timeout (pool_connect_args h) = Some (timeout h)"
  by (simp add: pool_connect_args_def)

text \<open>
  C8.  \<open>get_connection\<close> passes \<open>timeout=host.timeout\<close> to \<open>connect\<close>; the tunnel
  worker's \<open>connect\<close> call has no \<open>timeout\<close> argument.  For \<open>server1\<close>, configured
  with timeout 30, the pool connects with timeout 30 and the tunnel worker with none.
\<close>

theorem tunnel_connect_without_timeout:
  "timeout server1 = 30 \<and>
   ca_timeout (pool_connect_args server1) = Some 30 \<and>
   hd (fst (tunnel_worker env_refused server1 9000 ''127.0.0.1'' 8080)) =
     Ssh_connect \<lparr>ca_hostname = ''192.168.1.100'', ca_port = 22, ca_username = ''admin'',
       ca_password = Some ''password123'', ca_key_filename = None, ca_timeout = None\<rparr>"
  by (simp add: tunnel_worker_def env_refused_def tunnel_connect_args_def
      pool_connect_args_def truthy_def server1_def)

end
